theory Spec2Isabelle
  imports Complex_Main "HOL-Library.Word"
begin

section \<open>The LS7366R quadrature counter driver\<close>

text \<open>
  The driver (\<^verbatim>\<open>LS7366R.hpp\<close> and its implementation file) talks to one LS7366R
  counter chip over SPI: \<^verbatim>\<open>Initialize\<close> programs the two mode registers,
  \<^verbatim>\<open>Read\<close> clocks the count out of the chip and passes it through
  \<^verbatim>\<open>Format\<close>, and \<^verbatim>\<open>Zero\<close> resets the count.

  The target is the AVR Arduino (\<^verbatim>\<open>main.cpp\<close> uses the SPI pins 50 to 53 of the
  Mega, and the source calls the board a 16-bit platform): \<^verbatim>\<open>int\<close> has 16 bits,
  \<^verbatim>\<open>long\<close> has 32, so arithmetic on \<^verbatim>\<open>int16_t\<close> is done in 16 bits and arithmetic
  on \<^verbatim>\<open>int32_t\<close> and \<^verbatim>\<open>uint32_t\<close> in 32 bits.
\<close>

subsection \<open>Machine integers\<close>

text \<open>
  Fixed-width integers are words. A signed type is read with \<open>sint\<close>, an unsigned one
  with \<open>uint\<close>; converting between \<^verbatim>\<open>int32_t\<close> and \<^verbatim>\<open>uint32_t\<close> keeps the bits.
\<close>

type_synonym uint8_t = "8 word"
type_synonym int16_t = "16 word"
type_synonym int32_t = "32 word"
type_synonym uint32_t = "32 word"

text \<open>
  What C++ leaves undefined is a value of its own, so that no theorem says anything about
  an execution that runs into it: a remainder by zero, the negation of the most negative
  value of a signed type, and the conversion to \<^verbatim>\<open>long\<close> of a number that \<^verbatim>\<open>long\<close>
  cannot hold.
\<close>

datatype fault = DivideByZero | SignedOverflow | ConversionOverflow

text \<open>Unary minus on \<^verbatim>\<open>int32_t\<close> and on \<^verbatim>\<open>int16_t\<close>.\<close>

definition neg32 :: "int32_t \<Rightarrow> fault + int32_t" where
  "neg32 x = (if sint x = - (2 ^ 31) then Inl SignedOverflow else Inr (- x))"

definition neg16 :: "int16_t \<Rightarrow> fault + int16_t" where
  "neg16 x = (if sint x = - (2 ^ 15) then Inl SignedOverflow else Inr (- x))"

text \<open>
  Modelled from the spec: \<^verbatim>\<open>abs\<close> is a macro of the platform header
  (\<^verbatim>\<open>Arduino.h\<close>), which is not among the sources; the specification writes
  \<^verbatim>\<open>abs(scaled)\<close>, the absolute value. At type \<^verbatim>\<open>int32_t\<close> the platform macro
  \<^verbatim>\<open>((x)>0?(x):-(x))\<close> negates every value that is not positive, and the negation of
  the most negative value overflows.
\<close>

definition abs32 :: "int32_t \<Rightarrow> fault + int32_t" where
  "abs32 x = (if 0 < sint x then Inr x else neg32 x)"

text \<open>
  The operator \<^verbatim>\<open>%\<close> at type \<^verbatim>\<open>uint32_t\<close>. In \<^verbatim>\<open>value % range\<close> the left operand
  is an \<^verbatim>\<open>int32_t\<close> and the right one a \<^verbatim>\<open>uint32_t\<close>, so the usual arithmetic
  conversions make the remainder an unsigned one.
\<close>

definition mod_u32 :: "uint32_t \<Rightarrow> uint32_t \<Rightarrow> fault + uint32_t" where
  "mod_u32 a b = (if b = 0 then Inl DivideByZero else Inr (a mod b))"

subsection \<open>The channel\<close>

datatype CounterMode = BITS_32 | BITS_16

text \<open>The numeric codes of the enumerators, as \<^verbatim>\<open>SPI.transfer(mode)\<close> sends them.\<close>

fun mode_code :: "CounterMode \<Rightarrow> uint8_t" where
  "mode_code BITS_32 = 0"
| "mode_code BITS_16 = 2"

text \<open>
  The private fields of class \<^verbatim>\<open>LS7366R\<close>. The field \<^verbatim>\<open>range\<close> is called
  \<open>range'\<close> here; the \<^verbatim>\<open>float\<close> field \<^verbatim>\<open>multiplier\<close> is the real number it denotes.
\<close>

record LS7366R =
  ss :: uint8_t
  mode :: CounterMode
  multiplier :: real
  range' :: uint32_t
  reverse :: bool

subsection \<open>Scaling and rounding\<close>

text \<open>
  The first statement of \<^verbatim>\<open>Format\<close> is \<^verbatim>\<open>value = round(multiplier * value)\<close> with
  a \<^verbatim>\<open>float multiplier\<close> and an \<^verbatim>\<open>int32_t value\<close>: the value is converted to
  \<^verbatim>\<open>float\<close>, the product is a \<^verbatim>\<open>float\<close> product, and \<^verbatim>\<open>round\<close> makes a
  \<^verbatim>\<open>long\<close> of it.

  A \<^verbatim>\<open>float\<close> is the real number it denotes. \<open>to_float\<close> rounds a real number to
  the nearest IEEE 754 single-precision number, ties to the even significand, and is the
  identity on the numbers that are such floats. It works in units of \<open>2^-149\<close>, the
  smallest positive float: \<open>binade\<close> finds, by bisection, the largest \<open>k\<close> with
  \<open>2^(23+k)\<close> not above the number, so that the number has 24 significant bits in
  units of \<open>2^k\<close> (\<open>k = 0\<close> for the subnormal numbers and the first binade of the
  normal ones, \<open>k = 253\<close> for the last binade), \<open>round_even\<close> rounds the
  significand, and the result is \<open>None\<close> when it is \<open>2^128\<close> or more, beyond the
  largest finite float, where the hardware gives an infinity.
\<close>

definition round_even :: "real \<Rightarrow> int" where
  "round_even r =
     (let f = \<lfloor>r\<rfloor>; d = r - of_int f
      in if d < 1 / 2 then f else if 1 / 2 < d then f + 1 else if even f then f else f + 1)"

definition binade :: "int \<Rightarrow> nat" where
  "binade n =
     fst (fold (\<lambda>j (k, t). if t * 2 ^ j \<le> n then (k + j, t * 2 ^ j) else (k, t))
            [128, 64, 32, 16, 8, 4, 2, 1] (0, 2 ^ 23))"

definition to_float :: "real \<Rightarrow> real option" where
  "to_float x =
     (let a = \<bar>x\<bar> * 2 ^ 149;
          k = binade \<lfloor>a\<rfloor>;
          m = round_even (a / 2 ^ k)
      in if 2 ^ 277 \<le> m * 2 ^ k then None
         else Some (sgn x * (of_int (m * 2 ^ k) / 2 ^ 149)))"

text \<open>
  Modelled from the spec: the macro \<^verbatim>\<open>round\<close> belongs to the platform
  (\<^verbatim>\<open>Arduino.h\<close>), which is not among the sources. The specification gives
  \<^verbatim>\<open>scaled = round(scaleFactor * value)\<close> and fixes \<^verbatim>\<open>round(3.5) == 4\<close>. The
  rounding below is half away from zero, computed the way the platform macro
  \<^verbatim>\<open>((x)>=0?(long)((x)+0.5):(long)((x)-0.5))\<close> does: one half is added to or subtracted
  from \<open>x\<close> and the result is cut off towards zero by the conversion to \<^verbatim>\<open>long\<close>, which
  is undefined when the number does not fit. The sum inside the macro is taken exactly.
\<close>

definition to_long :: "real \<Rightarrow> fault + int32_t" where
  "to_long x =
     (let t = (if 0 \<le> x then \<lfloor>x\<rfloor> else \<lceil>x\<rceil>)
      in if - (2 ^ 31) \<le> t \<and> t < 2 ^ 31 then Inr (word_of_int t) else Inl ConversionOverflow)"

definition round_long :: "real \<Rightarrow> fault + int32_t" where
  "round_long x = (if 0 \<le> x then to_long (x + 1 / 2) else to_long (x - 1 / 2))"

text \<open>
  \<^verbatim>\<open>round(multiplier * value)\<close>: the field \<^verbatim>\<open>multiplier\<close> read as the float it is,
  the value converted to \<^verbatim>\<open>float\<close>, the product rounded to \<^verbatim>\<open>float\<close>, and then the
  macro. A product beyond the finite floats is an infinity, which the conversion to
  \<^verbatim>\<open>long\<close> cannot hold either.

  \<open>Format\<close> below takes this step as its argument \<open>rnd\<close>, and the general theorems
  about \<open>Format\<close> hold for every \<open>rnd\<close>; \<open>scale\<close> is used where a claim names a
  scale factor.
\<close>

definition scale :: "real \<Rightarrow> int32_t \<Rightarrow> fault + int32_t" where
  "scale m v =
     (case to_float m of
        None \<Rightarrow> Inl ConversionOverflow
      | Some mf \<Rightarrow>
          (case to_float (real_of_int (sint v)) of
             None \<Rightarrow> Inl ConversionOverflow
           | Some vf \<Rightarrow>
               (case to_float (mf * vf) of
                  None \<Rightarrow> Inl ConversionOverflow
                | Some x \<Rightarrow> round_long x)))"

subsection \<open>Format\<close>

text \<open>
  \<^verbatim>\<open>int32_t LS7366R::Format(int32_t value)\<close>. The first line stores
  \<^verbatim>\<open>round(multiplier * value)\<close> back into \<^verbatim>\<open>value\<close>; \<^verbatim>\<open>range <= 0\<close> compares a
  \<^verbatim>\<open>uint32_t\<close>; both remainders are unsigned; \<^verbatim>\<open>range - (abs(value) % range)\<close> is an
  unsigned difference, converted to \<^verbatim>\<open>int32_t\<close> by the \<^verbatim>\<open>return\<close>.
\<close>

definition Format ::
  "(real \<Rightarrow> int32_t \<Rightarrow> fault + int32_t) \<Rightarrow> LS7366R \<Rightarrow> int32_t \<Rightarrow> fault + int32_t" where
  "Format rnd c v =
     (case rnd (multiplier c) v of
        Inl e \<Rightarrow> Inl e
      | Inr value \<Rightarrow>
          if range' c \<le> 0 then Inr value
          else if 0 \<le> sint value then mod_u32 value (range' c)
          else (case abs32 value of
                  Inl e \<Rightarrow> Inl e
                | Inr a \<Rightarrow> (case mod_u32 a (range' c) of
                             Inl e \<Rightarrow> Inl e
                           | Inr m \<Rightarrow> Inr (range' c - m))))"

subsection \<open>The bus\<close>

text \<open>
  Modelled from the spec: the driver reaches the hardware through the primitives of the
  Arduino core and its SPI library (\<^verbatim>\<open>digitalWrite\<close>, \<^verbatim>\<open>pinMode\<close>,
  \<^verbatim>\<open>SPI.beginTransaction\<close>, \<^verbatim>\<open>SPI.transfer\<close>, \<^verbatim>\<open>SPI.endTransaction\<close>,
  \<^verbatim>\<open>delayMicroseconds\<close>), which are not among the sources; the specification lists
  them as the bus transport: begin an exclusive transaction with given settings, transfer
  one byte and receive one byte, end the transaction, set a digital output line. Here
  each primitive appends an event to a log, \<^verbatim>\<open>digitalWrite\<close> also sets the level of
  the pin and tells the attached device, and \<^verbatim>\<open>SPI.transfer\<close> hands the byte to the
  device and returns the byte the device answers.
\<close>

datatype level = LOW | HIGH

datatype bit_order = LSBFIRST | MSBFIRST

record SPISettings =
  clock :: nat
  bitOrder :: bit_order
  dataMode :: nat

text \<open>\<^verbatim>\<open>const SPISettings spiSettings { 4000000, MSBFIRST, SPI_MODE0 }\<close>.\<close>

definition spiSettings :: SPISettings where
  "spiSettings = \<lparr>clock = 4000000, bitOrder = MSBFIRST, dataMode = 0\<rparr>"

datatype event =
    BeginTransaction SPISettings
  | EndTransaction
  | DigitalWrite uint8_t level
  | PinModeOutput uint8_t
  | Transfer uint8_t uint8_t
  | DelayMicroseconds nat

text \<open>
  A device on the bus, with a state of type \<open>'d\<close>: how it reacts to a pin changing its
  level, and which byte it answers to a byte clocked out to it.
\<close>

record 'd device =
  on_pin :: "uint8_t \<Rightarrow> level \<Rightarrow> 'd \<Rightarrow> 'd"
  on_byte :: "uint8_t \<Rightarrow> 'd \<Rightarrow> uint8_t \<times> 'd"

record 'd bus =
  pins :: "uint8_t \<Rightarrow> level"
  slave :: 'd
  log :: "event list"

definition digitalWrite :: "'d device \<Rightarrow> uint8_t \<Rightarrow> level \<Rightarrow> 'd bus \<Rightarrow> 'd bus" where
  "digitalWrite D pin lv s =
     s\<lparr>pins := (pins s)(pin := lv),
       slave := on_pin D pin lv (slave s),
       log := log s @ [DigitalWrite pin lv]\<rparr>"

definition pinMode_OUTPUT :: "uint8_t \<Rightarrow> 'd bus \<Rightarrow> 'd bus" where
  "pinMode_OUTPUT pin s = s\<lparr>log := log s @ [PinModeOutput pin]\<rparr>"

definition SPI_beginTransaction :: "SPISettings \<Rightarrow> 'd bus \<Rightarrow> 'd bus" where
  "SPI_beginTransaction st s = s\<lparr>log := log s @ [BeginTransaction st]\<rparr>"

definition SPI_endTransaction :: "'d bus \<Rightarrow> 'd bus" where
  "SPI_endTransaction s = s\<lparr>log := log s @ [EndTransaction]\<rparr>"

definition SPI_transfer :: "'d device \<Rightarrow> uint8_t \<Rightarrow> 'd bus \<Rightarrow> uint8_t \<times> 'd bus" where
  "SPI_transfer D b s =
     (let r = on_byte D b (slave s)
      in (fst r, s\<lparr>slave := snd r, log := log s @ [Transfer b (fst r)]\<rparr>))"

definition delayMicroseconds :: "nat \<Rightarrow> 'd bus \<Rightarrow> 'd bus" where
  "delayMicroseconds us s = s\<lparr>log := log s @ [DelayMicroseconds us]\<rparr>"

subsection \<open>The driver\<close>

text \<open>
  The constructor, \<^verbatim>\<open>Initialize\<close>, \<^verbatim>\<open>Read16\<close>, \<^verbatim>\<open>Read32\<close>, \<^verbatim>\<open>Read\<close> and
  \<^verbatim>\<open>Zero\<close>, statement by statement, the bus state passed along. In the two readers
  \<^verbatim>\<open>retval += SPI.transfer(0x00)\<close> adds the received byte, widened, to \<^verbatim>\<open>retval\<close>,
  and \<^verbatim>\<open>retval <<= 8\<close> keeps the low bits of the shifted value, which is what the
  compiler of the target defines for a left shift of a signed value;
  \<^verbatim>\<open>reverse ? -retval : retval\<close> negates in the width of \<^verbatim>\<open>retval\<close>. \<^verbatim>\<open>Read\<close>
  widens the \<^verbatim>\<open>int16_t\<close> of \<^verbatim>\<open>Read16\<close> to the \<^verbatim>\<open>int32_t\<close> parameter of
  \<^verbatim>\<open>Format\<close> with its sign.
\<close>

definition LS7366R_new ::
  "'d device \<Rightarrow> uint8_t \<Rightarrow> CounterMode \<Rightarrow> real \<Rightarrow> uint32_t \<Rightarrow> bool \<Rightarrow> 'd bus
     \<Rightarrow> LS7366R \<times> 'd bus" where
  "LS7366R_new D slaveSelectPin md mul rng rv s =
     (let c = \<lparr>ss = slaveSelectPin, mode = md, multiplier = mul, range' = rng, reverse = rv\<rparr>;
          s = digitalWrite D (ss c) HIGH s;
          s = pinMode_OUTPUT (ss c) s
      in (c, s))"

definition Initialize :: "'d device \<Rightarrow> LS7366R \<Rightarrow> 'd bus \<Rightarrow> 'd bus" where
  "Initialize D c s =
     (let s = SPI_beginTransaction spiSettings s;
          s = digitalWrite D (ss c) LOW s;
          s = snd (SPI_transfer D 0x88 s);
          s = snd (SPI_transfer D 0x01 s);
          s = digitalWrite D (ss c) HIGH s;
          s = delayMicroseconds 1 s;
          s = digitalWrite D (ss c) LOW s;
          s = snd (SPI_transfer D 0x90 s);
          s = snd (SPI_transfer D (mode_code (mode c)) s);
          s = digitalWrite D (ss c) HIGH s;
          s = delayMicroseconds 1 s
      in SPI_endTransaction s)"

definition Read16 :: "'d device \<Rightarrow> LS7366R \<Rightarrow> 'd bus \<Rightarrow> (fault + int16_t) \<times> 'd bus" where
  "Read16 D c s =
     (let retval = (0 :: int16_t);
          s = SPI_beginTransaction spiSettings s;
          s = digitalWrite D (ss c) LOW s;
          s = snd (SPI_transfer D 0x60 s);
          r = SPI_transfer D 0x00 s;
          retval = retval + ucast (fst r);
          s = snd r;
          retval = push_bit 8 retval;
          r = SPI_transfer D 0x00 s;
          retval = retval + ucast (fst r);
          s = snd r;
          s = digitalWrite D (ss c) HIGH s;
          s = SPI_endTransaction s;
          s = delayMicroseconds 1 s
      in (if reverse c then neg16 retval else Inr retval, s))"

definition Read32 :: "'d device \<Rightarrow> LS7366R \<Rightarrow> 'd bus \<Rightarrow> (fault + int32_t) \<times> 'd bus" where
  "Read32 D c s =
     (let retval = (0 :: int32_t);
          s = SPI_beginTransaction spiSettings s;
          s = digitalWrite D (ss c) LOW s;
          s = snd (SPI_transfer D 0x60 s);
          r = SPI_transfer D 0x00 s;
          retval = retval + ucast (fst r);
          s = snd r;
          retval = push_bit 8 retval;
          r = SPI_transfer D 0x00 s;
          retval = retval + ucast (fst r);
          s = snd r;
          retval = push_bit 8 retval;
          r = SPI_transfer D 0x00 s;
          retval = retval + ucast (fst r);
          s = snd r;
          retval = push_bit 8 retval;
          r = SPI_transfer D 0x00 s;
          retval = retval + ucast (fst r);
          s = snd r;
          s = digitalWrite D (ss c) HIGH s;
          s = SPI_endTransaction s;
          s = delayMicroseconds 1 s
      in (if reverse c then neg32 retval else Inr retval, s))"

definition Read ::
  "(real \<Rightarrow> int32_t \<Rightarrow> fault + int32_t) \<Rightarrow> 'd device \<Rightarrow> LS7366R \<Rightarrow> 'd bus
     \<Rightarrow> (fault + int32_t) \<times> 'd bus" where
  "Read rnd D c s =
     (if mode c = BITS_32 then
        (let r = Read32 D c s
         in (case fst r of Inl e \<Rightarrow> Inl e | Inr raw \<Rightarrow> Format rnd c raw, snd r))
      else if mode c = BITS_16 then
        (let r = Read16 D c s
         in (case fst r of Inl e \<Rightarrow> Inl e | Inr raw \<Rightarrow> Format rnd c (scast raw), snd r))
      else (Inr 0, s))"

definition Zero :: "'d device \<Rightarrow> LS7366R \<Rightarrow> 'd bus \<Rightarrow> 'd bus" where
  "Zero D c s =
     (let s = SPI_beginTransaction spiSettings s;
          s = digitalWrite D (ss c) LOW s;
          s = snd (SPI_transfer D 0x98 s);
          s = snd (SPI_transfer D 0x00 s);
          s = snd (SPI_transfer D 0x00 s);
          s = snd (SPI_transfer D 0x00 s);
          s = snd (SPI_transfer D 0x00 s);
          s = digitalWrite D (ss c) HIGH s;
          s = delayMicroseconds 1 s;
          s = digitalWrite D (ss c) LOW s;
          s = snd (SPI_transfer D 0xE0 s);
          s = digitalWrite D (ss c) HIGH s;
          s = SPI_endTransaction s
      in delayMicroseconds 1 s)"

subsection \<open>Devices\<close>

text \<open>
  A device that answers the successive transfers with the bytes of a given list, whatever
  is sent to it: all a reader sees of a device is the bytes that \<^verbatim>\<open>SPI.transfer\<close>
  returns.
\<close>

definition scripted :: "uint8_t list device" where
  "scripted =
     \<lparr>on_pin = (\<lambda>pin lv bs. bs),
      on_byte = (\<lambda>b bs. case bs of [] \<Rightarrow> (0, []) | x # xs \<Rightarrow> (x, xs))\<rparr>"

text \<open>
  Modelled from the spec: the LS7366R chip is hardware, outside the sources. Its
  commands are those of the wire protocol table of the specification: after chip select
  goes low the first byte is an opcode; \<^verbatim>\<open>0x88\<close> and \<^verbatim>\<open>0x90\<close> store the next byte in
  MDR0 and MDR1, \<^verbatim>\<open>0x98\<close> shifts the following bytes into DTR, most significant
  first, \<^verbatim>\<open>0xE0\<close> loads the counter from DTR, and \<^verbatim>\<open>0x60\<close> makes the chip answer the
  following transfers with the bytes of the counter, most significant first, four of them
  when MDR1 holds the code 0 and two when it holds the code 2. Chip select going high
  ends the command. The counter changes by these commands only: the encoder does not
  move.
\<close>

datatype phase =
    Deselected | Opcode | LoadMDR0 | LoadMDR1 | LoadDTR | SendCNTR "uint8_t list" | Ignore

record chip =
  MDR0 :: uint8_t
  MDR1 :: uint8_t
  DTR :: uint32_t
  CNTR :: uint32_t
  phase :: phase

definition count_bytes :: "uint8_t \<Rightarrow> uint32_t \<Rightarrow> uint8_t list" where
  "count_bytes width n =
     (if width = 0 then
        [ucast (drop_bit 24 n), ucast (drop_bit 16 n), ucast (drop_bit 8 n), ucast n]
      else if width = 2 then [ucast (drop_bit 8 n), ucast n]
      else [])"

definition chip_on_pin :: "uint8_t \<Rightarrow> uint8_t \<Rightarrow> level \<Rightarrow> chip \<Rightarrow> chip" where
  "chip_on_pin cs pin lv ch =
     (if pin = cs then ch\<lparr>phase := (case lv of LOW \<Rightarrow> Opcode | HIGH \<Rightarrow> Deselected)\<rparr>
      else ch)"

definition chip_on_byte :: "uint8_t \<Rightarrow> chip \<Rightarrow> uint8_t \<times> chip" where
  "chip_on_byte b ch =
     (case phase ch of
        Deselected \<Rightarrow> (0, ch)
      | Opcode \<Rightarrow>
          if b = 0x88 then (0, ch\<lparr>phase := LoadMDR0\<rparr>)
          else if b = 0x90 then (0, ch\<lparr>phase := LoadMDR1\<rparr>)
          else if b = 0x98 then (0, ch\<lparr>phase := LoadDTR\<rparr>)
          else if b = 0xE0 then (0, ch\<lparr>CNTR := DTR ch, phase := Ignore\<rparr>)
          else if b = 0x60 then
            (0, ch\<lparr>phase := SendCNTR (count_bytes (MDR1 ch) (CNTR ch))\<rparr>)
          else (0, ch\<lparr>phase := Ignore\<rparr>)
      | LoadMDR0 \<Rightarrow> (0, ch\<lparr>MDR0 := b, phase := Ignore\<rparr>)
      | LoadMDR1 \<Rightarrow> (0, ch\<lparr>MDR1 := b, phase := Ignore\<rparr>)
      | LoadDTR \<Rightarrow> (0, ch\<lparr>DTR := push_bit 8 (DTR ch) + ucast b\<rparr>)
      | SendCNTR bs \<Rightarrow>
          (case bs of [] \<Rightarrow> (0, ch) | x # xs \<Rightarrow> (x, ch\<lparr>phase := SendCNTR xs\<rparr>))
      | Ignore \<Rightarrow> (0, ch))"

text \<open>The chip with its chip-select input wired to pin \<open>cs\<close>.\<close>

definition LS7366R_chip :: "uint8_t \<Rightarrow> chip device" where
  "LS7366R_chip cs = \<lparr>on_pin = chip_on_pin cs, on_byte = chip_on_byte\<rparr>"

subsection \<open>The chip-select discipline\<close>

text \<open>
  A checker for a sequence of bus events, as seen from the chip-select pin \<open>p\<close>. It
  keeps whether an SPI transaction is open and whether the line is released (high) or
  held (low), with the number of bytes transferred since it was pulled low. The line may
  be pulled low only inside a transaction and only when released; bytes are transferred
  only while it is held; it is released only after at least one byte; a transaction
  begins and ends only with the line released; and at the end the transaction is closed
  and the line released.
\<close>

datatype line = Released | Held nat

fun well_scoped :: "uint8_t \<Rightarrow> bool \<Rightarrow> line \<Rightarrow> event list \<Rightarrow> bool" where
  "well_scoped p t l [] = (\<not> t \<and> l = Released)"
| "well_scoped p t l (BeginTransaction st # es) =
     (\<not> t \<and> l = Released \<and> well_scoped p True l es)"
| "well_scoped p t l (EndTransaction # es) =
     (t \<and> l = Released \<and> well_scoped p False l es)"
| "well_scoped p t l (DigitalWrite q lv # es) =
     (if q = p then
        (case lv of
           LOW \<Rightarrow> t \<and> l = Released \<and> well_scoped p t (Held 0) es
         | HIGH \<Rightarrow>
             (case l of
                Released \<Rightarrow> False
              | Held n \<Rightarrow> 0 < n \<and> well_scoped p t Released es))
      else well_scoped p t l es)"
| "well_scoped p t l (Transfer b r # es) =
     (case l of Released \<Rightarrow> False | Held n \<Rightarrow> t \<and> well_scoped p t (Held (Suc n)) es)"
| "well_scoped p t l (PinModeOutput q # es) = well_scoped p t l es"
| "well_scoped p t l (DelayMicroseconds us # es) = well_scoped p t l es"

text \<open>A bus at rest: every pin high, nothing logged, the device in state \<open>d\<close>.\<close>

definition idle :: "'d \<Rightarrow> 'd bus" where
  "idle d = \<lparr>pins = (\<lambda>pin. HIGH), slave = d, log = []\<rparr>"

section \<open>Facts about 32-bit words\<close>

lemma sint32_bounds: "- 2147483648 \<le> sint (x :: 32 word) \<and> sint x < 2147483648"
  using sint_ge [of x] sint_lt [of x] by simp

lemma sint_minus32:
  assumes "sint (x :: 32 word) \<noteq> - (2 ^ 31)"
  shows "sint (- x) = - sint x"
proof -
  have "- (2 ^ 31) \<le> - sint x" "- sint x < 2 ^ 31"
    using assms sint32_bounds [of x] by simp_all
  then have "signed_take_bit 31 (- sint x) = - sint x"
    by (rule signed_take_bit_int_eq_self)
  then show ?thesis by (simp add: sint_word_minus)
qed

lemma uint_eq_sint_nonneg:
  assumes "0 \<le> sint (x :: 32 word)"
  shows "uint x = sint x"
proof -
  have "sint x < 2 ^ 32" using sint32_bounds [of x] by simp
  with assms have "take_bit 32 (sint x) = sint x"
    by (simp add: take_bit_int_eq_self)
  then show ?thesis by (simp add: uint_sint)
qed

lemma sint_eq_uint_small:
  assumes "uint (x :: 32 word) < 2 ^ 31"
  shows "sint x = uint x"
proof -
  have "- (2 ^ 31) \<le> (0 :: int)" by simp
  also have "0 \<le> uint x" by simp
  finally have "- (2 ^ 31) \<le> uint x" .
  then have "signed_take_bit 31 (uint x) = uint x"
    using assms by (rule signed_take_bit_int_eq_self)
  then show ?thesis by (simp add: sint_uint)
qed

lemma abs32_Inr:
  assumes "abs32 x = Inr a"
  shows "uint a = \<bar>sint x\<bar> \<and> sint x \<noteq> - (2 ^ 31)"
proof (cases "0 < sint x")
  case True
  with assms have "a = x" by (simp add: abs32_def)
  with True show ?thesis using uint_eq_sint_nonneg [of x] by simp
next
  case False
  with assms have ne: "sint x \<noteq> - (2 ^ 31)" and a: "a = - x"
    by (auto simp: abs32_def neg32_def split: if_splits)
  from ne have "sint a = - sint x" unfolding a by (rule sint_minus32)
  with False ne show ?thesis using uint_eq_sint_nonneg [of a] by simp
qed

lemma uint_pos32:
  assumes "(r :: 32 word) \<noteq> 0"
  shows "0 < uint r"
proof -
  have "uint r \<noteq> 0" using assms by (simp add: uint_0_iff)
  moreover have "0 \<le> uint r" by simp
  ultimately show ?thesis by linarith
qed

lemma abs32_defined:
  "sint x \<noteq> - (2 ^ 31) \<Longrightarrow> abs32 x = Inr (if 0 < sint x then x else - x)"
  by (simp add: abs32_def neg32_def)

lemma sint32_of_uint:
  "sint (w :: 32 word) = (if uint w < 2147483648 then uint w else uint w - 4294967296)"
proof (cases "uint w < 2147483648")
  case True
  then have "uint w < 2 ^ 31" by simp
  then have "sint w = uint w" by (rule sint_eq_uint_small)
  with True show ?thesis by simp
next
  case False
  have lt: "uint w < 4294967296" using uint_lt2p [of w] by simp
  have "signed_take_bit 31 (uint w) = take_bit 32 (uint w + 2 ^ 31) - 2 ^ 31"
    by (simp add: signed_take_bit_eq_take_bit_shift)
  also have "take_bit 32 (uint w + 2 ^ 31) = (uint w + 2147483648) mod 4294967296"
    by (simp add: take_bit_eq_mod)
  also have "(uint w + 2147483648) mod 4294967296 = uint w - 2147483648"
  proof -
    have "(uint w + 2147483648) mod 4294967296 = (uint w - 2147483648 + 4294967296) mod 4294967296"
      by (rule arg_cong [where f = "\<lambda>k. k mod 4294967296"]) simp
    also have "\<dots> = (uint w - 2147483648) mod 4294967296" by (simp only: mod_add_self2)
    also have "\<dots> = uint w - 2147483648" using False lt by (simp add: mod_pos_pos_trivial)
    finally show ?thesis .
  qed
  finally show ?thesis using False by (simp add: sint_uint)
qed

lemma Format_fields:
  "multiplier c = multiplier c' \<Longrightarrow> range' c = range' c' \<Longrightarrow> Format rnd c v = Format rnd c' v"
  unfolding Format_def by (simp only:)

section \<open>The scaling step at the values used below\<close>

lemma to_float_eval:
  assumes "binade \<lfloor>\<bar>x\<bar> * 2 ^ 149\<rfloor> = k" and "round_even (\<bar>x\<bar> * 2 ^ 149 / 2 ^ k) = m"
  shows "to_float x =
    (if 2 ^ 277 \<le> m * 2 ^ k then None else Some (sgn x * (of_int (m * 2 ^ k) / 2 ^ 149)))"
  using assms by (simp add: to_float_def Let_def)

text \<open>Numbers that are floats.\<close>

lemma to_float_values:
  "to_float 0 = Some 0"
  "to_float 1 = Some 1"
  "to_float (- 1) = Some (- 1)"
  "to_float 5 = Some 5"
  "to_float 7 = Some 7"
  "to_float 125 = Some 125"
  "to_float (- 125) = Some (- 125)"
  "to_float 200 = Some 200"
  "to_float (- 200) = Some (- 200)"
  "to_float 300 = Some 300"
  "to_float (- 300) = Some (- 300)"
  "to_float 325 = Some 325"
  "to_float (- 325) = Some (- 325)"
  "to_float 32768 = Some 32768"
  "to_float (- 32768) = Some (- 32768)"
  "to_float 16777216 = Some 16777216"
  "to_float 2147483648 = Some 2147483648"
  "to_float (1 / 2) = Some (1 / 2)"
  "to_float (3 / 2) = Some (3 / 2)"
  "to_float (7 / 2) = Some (7 / 2)"
  "to_float (- (375 / 2)) = Some (- (375 / 2))"
  by (rule to_float_eval [THEN trans], simp add: binade_def,
      simp add: round_even_def Let_def, simp)+

text \<open>Numbers that are not: the nearest float is taken.\<close>

lemma to_float_rounded_values:
  "to_float 16777217 = Some 16777216"
  "to_float 2147483647 = Some 2147483648"
  "to_float (7 / 10) = Some (11744051 / 16777216)"
  "to_float (58720255 / 16777216) = Some (7 / 2)"
  by (rule to_float_eval [THEN trans], simp add: binade_def,
      simp add: round_even_def Let_def, simp)+

lemmas scale_eval =
  scale_def to_float_values to_float_rounded_values round_long_def to_long_def

lemma scale_values:
  "scale 1 0 = Inr 0"
  "scale 1 (- 1) = Inr (- 1)"
  "scale 1 125 = Inr 125"
  "scale 1 (- 125) = Inr (- 125)"
  "scale 1 200 = Inr 200"
  "scale 1 (- 200) = Inr (- 200)"
  "scale 1 300 = Inr 300"
  "scale 1 (- 300) = Inr (- 300)"
  "scale 1 325 = Inr 325"
  "scale 1 (- 325) = Inr (- 325)"
  "scale 1 32768 = Inr 32768"
  "scale 1 (- 32768) = Inr (- 32768)"
  "scale (1 / 2) 7 = Inr 4"
  "scale (3 / 2) (- 125) = Inr (- 188)"
  by (simp_all add: scale_eval)


lemmas Format_eval =
  Format_def scale_values round_long_def to_long_def abs32_def neg32_def mod_u32_def

section \<open>Format: the wrap into the range\<close>



subsection \<open>The two branches of the wrap\<close>

lemma Format_nonneg_branch:
  assumes "range' c \<noteq> 0" and "rnd (multiplier c) v = Inr scaled" and "0 \<le> sint scaled"
  shows "\<exists>r. Format rnd c v = Inr r \<and> sint r = sint scaled mod uint (range' c)"
proof -
  let ?r = "scaled mod range' c"
  have ret: "Format rnd c v = Inr ?r"
    using assms by (simp add: Format_def mod_u32_def)
  have us: "uint scaled = sint scaled" using assms(3) by (rule uint_eq_sint_nonneg)
  have u: "uint ?r = sint scaled mod uint (range' c)"
    by (simp add: uint_mod us)
  have rpos: "0 < uint (range' c)"
    using assms(1) by (rule uint_pos32)
  have "uint ?r \<le> uint scaled"
    unfolding uint_mod using rpos by (simp add: zmod_le_nonneg_dividend)
  also have "\<dots> < 2 ^ 31" using us sint32_bounds [of scaled] by simp
  finally have "sint ?r = uint ?r" by (rule sint_eq_uint_small)
  with ret u show ?thesis by simp
qed

lemma Format_negative_branch:
  assumes "range' c \<noteq> 0" and "rnd (multiplier c) v = Inr scaled" and "sint scaled < 0"
    and "abs32 scaled = Inr a"
  shows "\<exists>r. Format rnd c v = Inr r
      \<and> uint r = uint (range' c) - \<bar>sint scaled\<bar> mod uint (range' c)
      \<and> (uint (range' c) < 2 ^ 31 \<longrightarrow> sint r = uint r)
      \<and> sint r = (if uint r < 2 ^ 31 then uint r else uint r - 2 ^ 32)"
proof -
  let ?m = "a mod range' c"
  let ?r = "range' c - ?m"
  have ret: "Format rnd c v = Inr ?r"
    using assms by (simp add: Format_def mod_u32_def)
  have ua: "uint a = \<bar>sint scaled\<bar>" using assms(4) abs32_Inr by blast
  have rpos: "0 < uint (range' c)"
    using assms(1) by (rule uint_pos32)
  have m: "uint ?m = \<bar>sint scaled\<bar> mod uint (range' c)"
    by (simp add: uint_mod ua)
  have mlt: "uint ?m < uint (range' c)"
    unfolding uint_mod using rpos by simp
  then have "uint ?m \<le> uint (range' c)" by simp
  then have u: "uint ?r = uint (range' c) - uint ?m"
    by (simp add: uint_sub_lem)
  have "0 \<le> uint ?m" by simp
  with u have le: "uint ?r \<le> uint (range' c)" by linarith
  have "uint (range' c) < 2 ^ 31 \<longrightarrow> sint ?r = uint ?r"
  proof
    assume "uint (range' c) < 2 ^ 31"
    with le have "uint ?r < 2 ^ 31" by linarith
    then show "sint ?r = uint ?r" by (rule sint_eq_uint_small)
  qed
  moreover have "sint ?r = (if uint ?r < 2 ^ 31 then uint ?r else uint ?r - 2 ^ 32)"
    using sint32_of_uint [of ?r] by simp
  ultimately show ?thesis using ret u m by simp
qed

text \<open>
  Claim C3, as stated, fails for a range that does not fit in an \<^verbatim>\<open>int32_t\<close>. With
  range 4294967295 and scale factor 1, the value \<open>-1\<close> gives
  \<open>range - (abs(-1) mod range) = 4294967294\<close> as an unsigned number; the function
  returns an \<^verbatim>\<open>int32_t\<close>, and what it returns is \<open>-2\<close>.
\<close>

theorem Format_wide_range:
  "Format scale
     \<lparr>ss = 53, mode = BITS_32, multiplier = 1, range' = 4294967295, reverse = False\<rparr> (- 1)
     = Inr (- 2)
   \<and> sint (- 2 :: int32_t) = - 2
   \<and> uint (4294967295 :: uint32_t) - \<bar>sint (- 1 :: int32_t)\<bar> mod uint (4294967295 :: uint32_t)
     = 4294967294"
  by (simp add: Format_eval)

text \<open>
  Claim C3, amended. With a positive range \<open>Format\<close> wraps the scaled value by the
  sign-correct modulus. For a scaled value that is not negative it returns the remainder
  of the scaled value by the range. For a negative one (other than the most negative
  \<^verbatim>\<open>int32_t\<close>, whose \<^verbatim>\<open>abs\<close> is undefined) it computes the range minus the
  remainder of the absolute value by the range as an unsigned 32-bit number and returns
  it converted to \<^verbatim>\<open>int32_t\<close>: the number itself when it is below \<open>2^31\<close>, which
  it always is when the range is below \<open>2^31\<close>, and the number minus \<open>2^32\<close>
  otherwise. With range 200 and scale factor 1, \<open>Format (-125)\<close> is 75 and
  \<open>Format 125\<close> is 125.
\<close>

theorem Format_sign_correct_modulus:
  assumes "range' c \<noteq> 0" and "rnd (multiplier c) v = Inr scaled"
  shows "(0 \<le> sint scaled \<longrightarrow>
            (\<exists>r. Format rnd c v = Inr r \<and> sint r = sint scaled mod uint (range' c)))
    \<and> (sint scaled < 0 \<and> sint scaled \<noteq> - (2 ^ 31) \<longrightarrow>
            (\<exists>r. Format rnd c v = Inr r
               \<and> uint r = uint (range' c) - \<bar>sint scaled\<bar> mod uint (range' c)
               \<and> (uint (range' c) < 2 ^ 31 \<longrightarrow> sint r = uint r)
               \<and> sint r = (if uint r < 2 ^ 31 then uint r else uint r - 2 ^ 32)))
    \<and> Format scale \<lparr>ss = p, mode = md, multiplier = 1, range' = 200, reverse = rv\<rparr> (- 125)
        = Inr 75
    \<and> Format scale \<lparr>ss = p, mode = md, multiplier = 1, range' = 200, reverse = rv\<rparr> 125
        = Inr 125"
proof -
  have nonneg: "0 \<le> sint scaled \<longrightarrow>
      (\<exists>r. Format rnd c v = Inr r \<and> sint r = sint scaled mod uint (range' c))"
    using assms Format_nonneg_branch by blast
  have neg: "sint scaled < 0 \<and> sint scaled \<noteq> - (2 ^ 31) \<longrightarrow>
      (\<exists>r. Format rnd c v = Inr r
         \<and> uint r = uint (range' c) - \<bar>sint scaled\<bar> mod uint (range' c)
         \<and> (uint (range' c) < 2 ^ 31 \<longrightarrow> sint r = uint r)
         \<and> sint r = (if uint r < 2 ^ 31 then uint r else uint r - 2 ^ 32))"
  proof
    assume s: "sint scaled < 0 \<and> sint scaled \<noteq> - (2 ^ 31)"
    then have "abs32 scaled = Inr (if 0 < sint scaled then scaled else - scaled)"
      by (simp add: abs32_defined)
    with assms s show "\<exists>r. Format rnd c v = Inr r
         \<and> uint r = uint (range' c) - \<bar>sint scaled\<bar> mod uint (range' c)
         \<and> (uint (range' c) < 2 ^ 31 \<longrightarrow> sint r = uint r)
         \<and> sint r = (if uint r < 2 ^ 31 then uint r else uint r - 2 ^ 32)"
      by (intro Format_negative_branch) simp_all
  qed
  have m125: "Format scale \<lparr>ss = p, mode = md, multiplier = 1, range' = 200, reverse = rv\<rparr>
      (- 125) = Inr 75"
    by (simp add: Format_eval)
  have p125: "Format scale \<lparr>ss = p, mode = md, multiplier = 1, range' = 200, reverse = rv\<rparr>
      125 = Inr 125"
    by (simp add: Format_eval)
  from nonneg neg m125 p125 show ?thesis by (intro conjI)
qed

theorem Format_sign_correct_modulus_witness:
  "Format scale \<lparr>ss = 53, mode = BITS_32, multiplier = 1, range' = 200, reverse = False\<rparr>
     (- 325) = Inr 75
   \<and> Format scale \<lparr>ss = 53, mode = BITS_32, multiplier = 1, range' = 200, reverse = False\<rparr>
     325 = Inr 125"
  using Format_sign_correct_modulus
    [of "\<lparr>ss = 53, mode = BITS_32, multiplier = 1, range' = 200, reverse = False\<rparr>"
        scale "- 325" "- 325" 53 BITS_32 False]
    Format_sign_correct_modulus
    [of "\<lparr>ss = 53, mode = BITS_32, multiplier = 1, range' = 200, reverse = False\<rparr>"
        scale 325 325 53 BITS_32 False]
  by (simp add: Format_eval)

text \<open>
  Claim C1 (the code departs from it). With range 200 and scale factor 1 the value
  \<open>-200\<close> is formatted to 200, which is not below the range, while 200 itself is
  formatted to 0.
\<close>

theorem Format_reaches_range:
  "Format scale \<lparr>ss = 53, mode = BITS_32, multiplier = 1, range' = 200, reverse = False\<rparr>
     (- 200) = Inr 200
   \<and> \<not> sint (200 :: int32_t) < uint (200 :: uint32_t)
   \<and> Format scale \<lparr>ss = 53, mode = BITS_32, multiplier = 1, range' = 200, reverse = False\<rparr>
     200 = Inr 0"
  by (simp add: Format_eval)

section \<open>Format: no wrapping when the range is zero\<close>










section \<open>Format: the rounding of the scaled value\<close>

text \<open>
  Claim C8. With scale factor one half and range zero, \<open>Format 7\<close> is the rounding of
  3.5, which is 4. The rounding goes half away from zero: 2.5 is rounded to 3, where
  rounding half to even would give 2, and \<open>-3.5\<close> is rounded to \<open>-4\<close>.
\<close>

theorem Format_half_of_seven:
  "Format scale \<lparr>ss = p, mode = md, multiplier = 1 / 2, range' = 0, reverse = rv\<rparr> 7 = Inr 4
   \<and> round_long (7 / 2) = Inr 4
   \<and> round_long (5 / 2) = Inr 3
   \<and> round_long (- 7 / 2) = Inr (- 4)"
  by (simp add: Format_eval)

section \<open>Reading the count\<close>

subsection \<open>Assembling the bytes\<close>

lemmas bus_eval =
  digitalWrite_def pinMode_OUTPUT_def SPI_beginTransaction_def SPI_endTransaction_def
  SPI_transfer_def delayMicroseconds_def

lemma uint_byte_bounds: "0 \<le> uint (b :: 8 word) \<and> uint b \<le> 255"
  using uint_lt2p [of b] by simp

lemma uint_ucast_byte32: "uint (ucast (b :: 8 word) :: 32 word) = uint b"
  by (simp add: uint_up_ucast is_up)

lemma uint_ucast_byte16: "uint (ucast (b :: 8 word) :: 16 word) = uint b"
  by (simp add: uint_up_ucast is_up)

lemma shift_add_byte32:
  assumes "uint (w :: 32 word) < 2 ^ 24"
  shows "uint (push_bit 8 w + ucast (b :: 8 word)) = uint w * 2 ^ 8 + uint b"
proof -
  have "uint w * uint (256 :: 32 word) < 2 ^ 32" using assms by simp
  then have "uint (w * 256) = uint w * uint (256 :: 32 word)"
    using uint_mult_lem [of w 256] by simp
  then have p: "uint (push_bit 8 w) = uint w * 2 ^ 8"
    by (simp add: push_bit_eq_mult)
  have "uint w * 2 ^ 8 + uint b < 2 ^ 32"
    using assms uint_byte_bounds [of b] by simp
  then have "uint (push_bit 8 w) + uint (ucast b :: 32 word) < 2 ^ 32"
    by (simp add: p uint_ucast_byte32)
  then have "uint (push_bit 8 w + ucast b) = uint (push_bit 8 w) + uint (ucast b :: 32 word)"
    using uint_add_lem [of "push_bit 8 w" "ucast b"] by simp
  then show ?thesis by (simp add: p uint_ucast_byte32)
qed

lemma assemble32:
  fixes b3 b2 b1 b0 :: uint8_t
  shows "uint (push_bit 8 (push_bit 8 (push_bit 8 (ucast b3) + ucast b2) + ucast b1) + ucast b0 :: int32_t)
    = uint b3 * 2 ^ 24 + uint b2 * 2 ^ 16 + uint b1 * 2 ^ 8 + uint b0"
proof -
  let ?w1 = "ucast b3 :: int32_t"
  let ?w2 = "push_bit 8 ?w1 + ucast b2"
  let ?w3 = "push_bit 8 ?w2 + ucast b1"
  have u1: "uint ?w1 = uint b3" by (rule uint_ucast_byte32)
  then have "uint ?w1 < 2 ^ 24" using uint_byte_bounds [of b3] by simp
  then have u2: "uint ?w2 = uint ?w1 * 2 ^ 8 + uint b2" by (rule shift_add_byte32)
  then have "uint ?w2 < 2 ^ 24"
    using u1 uint_byte_bounds [of b3] uint_byte_bounds [of b2] by simp
  then have u3: "uint ?w3 = uint ?w2 * 2 ^ 8 + uint b1" by (rule shift_add_byte32)
  then have "uint ?w3 < 2 ^ 24"
    using u1 u2 uint_byte_bounds [of b3] uint_byte_bounds [of b2] uint_byte_bounds [of b1]
    by simp
  then have "uint (push_bit 8 ?w3 + ucast b0) = uint ?w3 * 2 ^ 8 + uint b0"
    by (rule shift_add_byte32)
  then show ?thesis by (simp add: u1 u2 u3)
qed

lemma assemble16:
  fixes msb lsb :: uint8_t
  shows "uint (push_bit 8 (ucast msb) + ucast lsb :: int16_t) = uint msb * 2 ^ 8 + uint lsb"
proof -
  let ?w = "ucast msb :: int16_t"
  have u1: "uint ?w = uint msb" by (rule uint_ucast_byte16)
  have "uint ?w * uint (256 :: 16 word) < 2 ^ 16"
    using uint_byte_bounds [of msb] by (simp add: u1)
  then have "uint (?w * 256) = uint ?w * uint (256 :: 16 word)"
    using uint_mult_lem [of ?w 256] by simp
  then have p: "uint (push_bit 8 ?w) = uint ?w * 2 ^ 8"
    by (simp add: push_bit_eq_mult)
  have "uint (push_bit 8 ?w) + uint (ucast lsb :: int16_t) < 2 ^ 16"
    using uint_byte_bounds [of msb] uint_byte_bounds [of lsb]
    by (simp add: p u1 uint_ucast_byte16)
  then have "uint (push_bit 8 ?w + ucast lsb) = uint (push_bit 8 ?w) + uint (ucast lsb :: int16_t)"
    using uint_add_lem [of "push_bit 8 ?w" "ucast lsb"] by simp
  then show ?thesis by (simp add: p u1 uint_ucast_byte16)
qed

lemma Read32_scripted:
  "Read32 scripted c \<lparr>pins = pn, slave = x # b3 # b2 # b1 # b0 # rest, log = lg\<rparr> =
    ((if reverse c then neg32 (push_bit 8 (push_bit 8 (push_bit 8 (ucast b3) + ucast b2) + ucast b1) + ucast b0)
      else Inr (push_bit 8 (push_bit 8 (push_bit 8 (ucast b3) + ucast b2) + ucast b1) + ucast b0)),
     \<lparr>pins = pn(ss c := HIGH), slave = rest,
      log = lg @ [BeginTransaction spiSettings, DigitalWrite (ss c) LOW,
                  Transfer 0x60 x, Transfer 0 b3, Transfer 0 b2, Transfer 0 b1, Transfer 0 b0,
                  DigitalWrite (ss c) HIGH, EndTransaction, DelayMicroseconds 1]\<rparr>)"
  by (simp add: Read32_def bus_eval scripted_def Let_def)

lemma Read16_scripted:
  "Read16 scripted c \<lparr>pins = pn, slave = x # msb # lsb # rest, log = lg\<rparr> =
    ((if reverse c then neg16 (push_bit 8 (ucast msb) + ucast lsb)
      else Inr (push_bit 8 (ucast msb) + ucast lsb)),
     \<lparr>pins = pn(ss c := HIGH), slave = rest,
      log = lg @ [BeginTransaction spiSettings, DigitalWrite (ss c) LOW,
                  Transfer 0x60 x, Transfer 0 msb, Transfer 0 lsb,
                  DigitalWrite (ss c) HIGH, EndTransaction, DelayMicroseconds 1]\<rparr>)"
  by (simp add: Read16_def bus_eval scripted_def Let_def)

lemma sint16_bounds: "- 32768 \<le> sint (x :: 16 word) \<and> sint x < 32768"
  using sint_ge [of x] sint_lt [of x] by simp

lemma sint_minus16:
  assumes "sint (x :: 16 word) \<noteq> - (2 ^ 15)"
  shows "sint (- x) = - sint x"
proof -
  have "- (2 ^ 15) \<le> - sint x" "- sint x < 2 ^ 15"
    using assms sint16_bounds [of x] by simp_all
  then have "signed_take_bit 15 (- sint x) = - sint x"
    by (rule signed_take_bit_int_eq_self)
  then show ?thesis by (simp add: sint_word_minus)
qed

lemma scast_minus16:
  assumes "sint (x :: 16 word) \<noteq> - (2 ^ 15)"
  shows "(scast (- x) :: 32 word) = - scast x"
proof -
  have "(scast (- x) :: 32 word) = word_of_int (sint (- x))" by (rule scast_eq)
  also have "\<dots> = word_of_int (- sint x)" using assms by (simp add: sint_minus16)
  also have "\<dots> = - (word_of_int (sint x) :: 32 word)" by simp
  also have "\<dots> = - scast x" by (simp only: scast_eq)
  finally show ?thesis .
qed

lemma sint_scast16: "sint (scast (x :: 16 word) :: 32 word) = sint x"
  by (simp add: sint_up_scast is_up)

lemma sint16_of_uint:
  "sint (w :: 16 word) = (if uint w < 32768 then uint w else uint w - 65536)"
proof (cases "uint w < 32768")
  case True
  have "- (2 ^ 15) \<le> (0 :: int)" by simp
  also have "0 \<le> uint w" by simp
  finally have "- (2 ^ 15) \<le> uint w" .
  moreover have "uint w < 2 ^ 15" using True by simp
  ultimately have "signed_take_bit 15 (uint w) = uint w"
    by (rule signed_take_bit_int_eq_self)
  with True show ?thesis by (simp add: sint_uint)
next
  case False
  have lt: "uint w < 65536" using uint_lt2p [of w] by simp
  have "signed_take_bit 15 (uint w) = take_bit 16 (uint w + 2 ^ 15) - 2 ^ 15"
    by (simp add: signed_take_bit_eq_take_bit_shift)
  also have "take_bit 16 (uint w + 2 ^ 15) = (uint w + 32768) mod 65536"
    by (simp add: take_bit_eq_mod)
  also have "(uint w + 32768) mod 65536 = uint w - 32768"
  proof -
    have "(uint w + 32768) mod 65536 = (uint w - 32768 + 65536) mod 65536"
      by (rule arg_cong [where f = "\<lambda>k. k mod 65536"]) simp
    also have "\<dots> = (uint w - 32768) mod 65536" by (simp only: mod_add_self2)
    also have "\<dots> = uint w - 32768" using False lt by (simp add: mod_pos_pos_trivial)
    finally show ?thesis .
  qed
  finally show ?thesis using False by (simp add: sint_uint)
qed

text \<open>
  Claim C5. A 32-bit read sends the opcode \<^verbatim>\<open>0x60\<close> and then clocks in four bytes.
  With the direction not inverted, the value it returns is the four bytes assembled most
  significant first, by shifting left by eight and adding: as an unsigned number it is
  \<open>b3 * 2^24 + b2 * 2^16 + b1 * 2^8 + b0\<close>, and it is read as a signed 32-bit value,
  negative exactly when the first byte has its high bit set. The bytes
  \<^verbatim>\<open>00 00 01 2C\<close> give 300. The byte \<open>x\<close> is what the chip answers while the
  opcode is sent; it is dropped.
\<close>

theorem Read32_assembles_MSB_first:
  "(\<exists>raw. Read32 scripted (c\<lparr>reverse := False\<rparr>)
             \<lparr>pins = pn, slave = x # b3 # b2 # b1 # b0 # rest, log = lg\<rparr>
        = (Inr raw,
           \<lparr>pins = pn(ss c := HIGH), slave = rest,
            log = lg @ [BeginTransaction spiSettings, DigitalWrite (ss c) LOW,
                        Transfer 0x60 x, Transfer 0 b3, Transfer 0 b2, Transfer 0 b1,
                        Transfer 0 b0,
                        DigitalWrite (ss c) HIGH, EndTransaction, DelayMicroseconds 1]\<rparr>)
      \<and> raw = push_bit 8 (push_bit 8 (push_bit 8 (ucast b3) + ucast b2) + ucast b1) + ucast b0
      \<and> uint raw = uint b3 * 2 ^ 24 + uint b2 * 2 ^ 16 + uint b1 * 2 ^ 8 + uint b0
      \<and> sint raw = (if uint b3 < 128 then uint raw else uint raw - 2 ^ 32))
   \<and> fst (Read32 scripted (c\<lparr>reverse := False\<rparr>)
            \<lparr>pins = pn, slave = [x, 0x00, 0x00, 0x01, 0x2C], log = lg\<rparr>) = Inr 300"
  (is "(\<exists>raw. ?P raw) \<and> ?Q")
proof -
  let ?raw = "push_bit 8 (push_bit 8 (push_bit 8 (ucast b3) + ucast b2) + ucast b1)
      + ucast b0 :: int32_t"
  have u: "uint ?raw = uint b3 * 2 ^ 24 + uint b2 * 2 ^ 16 + uint b1 * 2 ^ 8 + uint b0"
    by (rule assemble32)
  have b: "(uint ?raw < 2147483648) = (uint b3 < 128)"
  proof (cases "uint b3 < 128")
    case True
    then have "uint ?raw < 2147483648"
      unfolding u
      using uint_byte_bounds [of b2] uint_byte_bounds [of b1] uint_byte_bounds [of b0]
      by simp
    with True show ?thesis by simp
  next
    case False
    then have "2147483648 \<le> uint b3 * 2 ^ 24" by simp
    moreover have "0 \<le> uint b2 * 2 ^ 16 + uint b1 * 2 ^ 8 + uint b0" by simp
    ultimately have "\<not> uint ?raw < 2147483648"
      unfolding u by linarith
    with False show ?thesis by simp
  qed
  have s: "sint ?raw = (if uint b3 < 128 then uint ?raw else uint ?raw - 2 ^ 32)"
    unfolding sint32_of_uint [of ?raw] b by simp
  have ex: "fst (Read32 scripted (c\<lparr>reverse := False\<rparr>)
            \<lparr>pins = pn, slave = [x, 0x00, 0x00, 0x01, 0x2C], log = lg\<rparr>) = Inr 300"
    by (simp add: Read32_scripted)
  have rd: "Read32 scripted (c\<lparr>reverse := False\<rparr>)
             \<lparr>pins = pn, slave = x # b3 # b2 # b1 # b0 # rest, log = lg\<rparr>
        = (Inr ?raw,
           \<lparr>pins = pn(ss c := HIGH), slave = rest,
            log = lg @ [BeginTransaction spiSettings, DigitalWrite (ss c) LOW,
                        Transfer 0x60 x, Transfer 0 b3, Transfer 0 b2, Transfer 0 b1,
                        Transfer 0 b0,
                        DigitalWrite (ss c) HIGH, EndTransaction, DelayMicroseconds 1]\<rparr>)"
    by (simp add: Read32_scripted)
  show ?thesis
  proof (rule conjI)
    show "\<exists>raw. ?P raw"
    proof (rule exI [where x = ?raw], intro conjI)
      show "Read32 scripted (c\<lparr>reverse := False\<rparr>)
             \<lparr>pins = pn, slave = x # b3 # b2 # b1 # b0 # rest, log = lg\<rparr>
        = (Inr ?raw,
           \<lparr>pins = pn(ss c := HIGH), slave = rest,
            log = lg @ [BeginTransaction spiSettings, DigitalWrite (ss c) LOW,
                        Transfer 0x60 x, Transfer 0 b3, Transfer 0 b2, Transfer 0 b1,
                        Transfer 0 b0,
                        DigitalWrite (ss c) HIGH, EndTransaction, DelayMicroseconds 1]\<rparr>)"
        by (fact rd)
      show "?raw = ?raw" by (rule refl)
      show "uint ?raw = uint b3 * 2 ^ 24 + uint b2 * 2 ^ 16 + uint b1 * 2 ^ 8 + uint b0"
        by (fact u)
      show "sint ?raw = (if uint b3 < 128 then uint ?raw else uint ?raw - 2 ^ 32)"
        by (fact s)
    qed
    show ?Q by (fact ex)
  qed
qed

text \<open>
  Claim C10. A 16-bit read sends the opcode \<^verbatim>\<open>0x60\<close> and then clocks in two bytes.
  With the direction not inverted, the value it returns is the two's-complement reading
  of the byte pair: the number \<open>msb * 2^8 + lsb\<close> taken modulo \<open>2^16\<close> and read as
  a signed 16-bit value, which lies between \<open>-32768\<close> and \<open>32767\<close> and is negative
  exactly when the first byte is \<^verbatim>\<open>0x80\<close> or more. \<^verbatim>\<open>Read\<close> passes it to
  \<^verbatim>\<open>Format\<close> widened with its sign.
\<close>

theorem Read16_assembles_signed:
  "(\<exists>raw. Read16 scripted (c\<lparr>reverse := False\<rparr>)
             \<lparr>pins = pn, slave = x # msb # lsb # rest, log = lg\<rparr>
        = (Inr raw,
           \<lparr>pins = pn(ss c := HIGH), slave = rest,
            log = lg @ [BeginTransaction spiSettings, DigitalWrite (ss c) LOW,
                        Transfer 0x60 x, Transfer 0 msb, Transfer 0 lsb,
                        DigitalWrite (ss c) HIGH, EndTransaction, DelayMicroseconds 1]\<rparr>)
      \<and> uint raw = (uint msb * 2 ^ 8 + uint lsb) mod 2 ^ 16
      \<and> sint raw = (if uint msb < 128 then uint msb * 2 ^ 8 + uint lsb
                     else uint msb * 2 ^ 8 + uint lsb - 2 ^ 16)
      \<and> - (2 ^ 15) \<le> sint raw \<and> sint raw < 2 ^ 15
      \<and> (sint raw < 0) = (128 \<le> uint msb)
      \<and> sint (scast raw :: int32_t) = sint raw
      \<and> fst (Read rnd scripted (c\<lparr>mode := BITS_16, reverse := False\<rparr>)
            \<lparr>pins = pn, slave = x # msb # lsb # rest, log = lg\<rparr>)
          = Format rnd c (scast raw))"
  (is "\<exists>raw. ?P raw")
proof -
  let ?raw = "push_bit 8 (ucast msb) + ucast lsb :: int16_t"
  let ?N = "uint msb * 2 ^ 8 + uint lsb"
  have u: "uint ?raw = ?N" by (rule assemble16)
  have range: "0 \<le> ?N" "?N < 2 ^ 16"
    using uint_byte_bounds [of msb] uint_byte_bounds [of lsb] by simp_all
  have b: "(uint ?raw < 32768) = (uint msb < 128)"
  proof (cases "uint msb < 128")
    case True
    then have "uint ?raw < 32768"
      unfolding u using uint_byte_bounds [of lsb] by simp
    with True show ?thesis by simp
  next
    case False
    then have "32768 \<le> uint msb * 2 ^ 8" by simp
    moreover have "0 \<le> uint lsb" by simp
    ultimately have "\<not> uint ?raw < 32768" unfolding u by linarith
    with False show ?thesis by simp
  qed
  have s: "sint ?raw = (if uint msb < 128 then ?N else ?N - 2 ^ 16)"
    unfolding sint16_of_uint [of ?raw] b by (simp add: u)
  have rd: "Read16 scripted (c\<lparr>reverse := False\<rparr>)
             \<lparr>pins = pn, slave = x # msb # lsb # rest, log = lg\<rparr>
        = (Inr ?raw,
           \<lparr>pins = pn(ss c := HIGH), slave = rest,
            log = lg @ [BeginTransaction spiSettings, DigitalWrite (ss c) LOW,
                        Transfer 0x60 x, Transfer 0 msb, Transfer 0 lsb,
                        DigitalWrite (ss c) HIGH, EndTransaction, DelayMicroseconds 1]\<rparr>)"
    by (simp add: Read16_scripted)
  show ?thesis
  proof (rule exI [where x = ?raw], intro conjI)
    show "Read16 scripted (c\<lparr>reverse := False\<rparr>)
             \<lparr>pins = pn, slave = x # msb # lsb # rest, log = lg\<rparr>
        = (Inr ?raw,
           \<lparr>pins = pn(ss c := HIGH), slave = rest,
            log = lg @ [BeginTransaction spiSettings, DigitalWrite (ss c) LOW,
                        Transfer 0x60 x, Transfer 0 msb, Transfer 0 lsb,
                        DigitalWrite (ss c) HIGH, EndTransaction, DelayMicroseconds 1]\<rparr>)"
      by (fact rd)
    show "uint ?raw = ?N mod 2 ^ 16"
      using range by (simp add: u)
    show "sint ?raw = (if uint msb < 128 then ?N else ?N - 2 ^ 16)" by (fact s)
    show "- (2 ^ 15) \<le> sint ?raw" using sint16_bounds [of ?raw] by simp
    show "sint ?raw < 2 ^ 15" using sint16_bounds [of ?raw] by simp
    show "(sint ?raw < 0) = (128 \<le> uint msb)"
    proof (cases "uint msb < 128")
      case True
      with s have "sint ?raw = ?N" by simp
      with range(1) have "\<not> sint ?raw < 0" by linarith
      with True show ?thesis by simp
    next
      case False
      with s have "sint ?raw = ?N - 2 ^ 16" by simp
      with range(2) have "sint ?raw < 0" by linarith
      with False show ?thesis by simp
    qed
    show "sint (scast ?raw :: int32_t) = sint ?raw" by (rule sint_scast16)
    show "fst (Read rnd scripted (c\<lparr>mode := BITS_16, reverse := False\<rparr>)
            \<lparr>pins = pn, slave = x # msb # lsb # rest, log = lg\<rparr>)
          = Format rnd c (scast ?raw)"
    proof -
      have "fst (Read rnd scripted (c\<lparr>mode := BITS_16, reverse := False\<rparr>)
            \<lparr>pins = pn, slave = x # msb # lsb # rest, log = lg\<rparr>)
          = Format rnd (c\<lparr>mode := BITS_16, reverse := False\<rparr>) (scast ?raw)"
        by (simp add: Read_def Read16_scripted)
      also have "\<dots> = Format rnd c (scast ?raw)"
        by (rule Format_fields) simp_all
      finally show ?thesis .
    qed
  qed
qed

subsection \<open>Direction inversion\<close>

lemma Read32_forward:
  "\<exists>N. fst (Read32 D (c\<lparr>reverse := False\<rparr>) s) = Inr N"
  by (simp add: Read32_def Let_def)

lemma Read32_inverted:
  "Read32 D (c\<lparr>reverse := True\<rparr>) s =
     (case fst (Read32 D (c\<lparr>reverse := False\<rparr>) s) of Inl e \<Rightarrow> Inl e | Inr N \<Rightarrow> neg32 N,
      snd (Read32 D (c\<lparr>reverse := False\<rparr>) s))"
  by (simp add: Read32_def Let_def)

lemma Read16_forward:
  "\<exists>N. fst (Read16 D (c\<lparr>reverse := False\<rparr>) s) = Inr N"
  by (simp add: Read16_def Let_def)

lemma Read16_inverted:
  "Read16 D (c\<lparr>reverse := True\<rparr>) s =
     (case fst (Read16 D (c\<lparr>reverse := False\<rparr>) s) of Inl e \<Rightarrow> Inl e | Inr N \<Rightarrow> neg16 N,
      snd (Read16 D (c\<lparr>reverse := False\<rparr>) s))"
  by (simp add: Read16_def Let_def)

lemma Format_same_function:
  "Format rnd (c\<lparr>reverse := True\<rparr>) = Format rnd (c\<lparr>reverse := False\<rparr>)"
  by (rule ext, rule Format_fields) simp_all

lemma Read_inversion_32:
  assumes "mode c = BITS_32"
  shows "\<exists>N s'. Read32 D (c\<lparr>reverse := False\<rparr>) s = (Inr N, s')
      \<and> Read rnd D (c\<lparr>reverse := False\<rparr>) s = (Format rnd (c\<lparr>reverse := False\<rparr>) N, s')
      \<and> (sint N \<noteq> - (2 ^ 31) \<longrightarrow>
            Read rnd D (c\<lparr>reverse := True\<rparr>) s = (Format rnd (c\<lparr>reverse := True\<rparr>) (- N), s')
            \<and> sint (- N) = - sint N)"
proof -
  obtain N where N: "fst (Read32 D (c\<lparr>reverse := False\<rparr>) s) = Inr N"
    using Read32_forward by blast
  let ?s' = "snd (Read32 D (c\<lparr>reverse := False\<rparr>) s)"
  have fwd: "Read32 D (c\<lparr>reverse := False\<rparr>) s = (Inr N, ?s')"
    using N by (simp add: prod_eq_iff)
  have inv: "Read32 D (c\<lparr>reverse := True\<rparr>) s = (neg32 N, ?s')"
    using N by (simp add: Read32_inverted)
  have r1: "Read rnd D (c\<lparr>reverse := False\<rparr>) s = (Format rnd (c\<lparr>reverse := False\<rparr>) N, ?s')"
    using assms N by (simp add: Read_def Let_def)
  have r2: "sint N \<noteq> - (2 ^ 31) \<longrightarrow>
      Read rnd D (c\<lparr>reverse := True\<rparr>) s = (Format rnd (c\<lparr>reverse := True\<rparr>) (- N), ?s')
      \<and> sint (- N) = - sint N"
  proof
    assume ne: "sint N \<noteq> - (2 ^ 31)"
    then have "neg32 N = Inr (- N)" by (simp add: neg32_def)
    then have "Read rnd D (c\<lparr>reverse := True\<rparr>) s
        = (Format rnd (c\<lparr>reverse := True\<rparr>) (- N), ?s')"
      using assms N by (simp add: Read_def Let_def Read32_inverted)
    moreover have "sint (- N) = - sint N" using ne by (rule sint_minus32)
    ultimately show "Read rnd D (c\<lparr>reverse := True\<rparr>) s
        = (Format rnd (c\<lparr>reverse := True\<rparr>) (- N), ?s') \<and> sint (- N) = - sint N"
      by (rule conjI)
  qed
  show ?thesis
  proof (rule exI [where x = N], rule exI [where x = ?s'], intro conjI)
    show "Read32 D (c\<lparr>reverse := False\<rparr>) s = (Inr N, ?s')" by (fact fwd)
    show "Read rnd D (c\<lparr>reverse := False\<rparr>) s = (Format rnd (c\<lparr>reverse := False\<rparr>) N, ?s')"
      by (fact r1)
    show "sint N \<noteq> - (2 ^ 31) \<longrightarrow>
      Read rnd D (c\<lparr>reverse := True\<rparr>) s = (Format rnd (c\<lparr>reverse := True\<rparr>) (- N), ?s')
      \<and> sint (- N) = - sint N" by (fact r2)
  qed
qed

lemma Read_inversion_16:
  assumes "mode c = BITS_16"
  shows "\<exists>N s'. Read16 D (c\<lparr>reverse := False\<rparr>) s = (Inr N, s')
      \<and> Read rnd D (c\<lparr>reverse := False\<rparr>) s
          = (Format rnd (c\<lparr>reverse := False\<rparr>) (scast N), s')
      \<and> (sint N \<noteq> - (2 ^ 15) \<longrightarrow>
            Read rnd D (c\<lparr>reverse := True\<rparr>) s
              = (Format rnd (c\<lparr>reverse := True\<rparr>) (- scast N), s')
            \<and> sint (- scast N :: int32_t) = - sint N)"
proof -
  obtain N where N: "fst (Read16 D (c\<lparr>reverse := False\<rparr>) s) = Inr N"
    using Read16_forward by blast
  let ?s' = "snd (Read16 D (c\<lparr>reverse := False\<rparr>) s)"
  have fwd: "Read16 D (c\<lparr>reverse := False\<rparr>) s = (Inr N, ?s')"
    using N by (simp add: prod_eq_iff)
  have inv: "Read16 D (c\<lparr>reverse := True\<rparr>) s = (neg16 N, ?s')"
    using N by (simp add: Read16_inverted)
  have r1: "Read rnd D (c\<lparr>reverse := False\<rparr>) s
      = (Format rnd (c\<lparr>reverse := False\<rparr>) (scast N), ?s')"
    using assms N by (simp add: Read_def Let_def)
  have r2: "sint N \<noteq> - (2 ^ 15) \<longrightarrow>
      Read rnd D (c\<lparr>reverse := True\<rparr>) s
        = (Format rnd (c\<lparr>reverse := True\<rparr>) (- scast N), ?s')
      \<and> sint (- scast N :: int32_t) = - sint N"
  proof
    assume ne: "sint N \<noteq> - (2 ^ 15)"
    then have "neg16 N = Inr (- N)" by (simp add: neg16_def)
    then have "Read rnd D (c\<lparr>reverse := True\<rparr>) s
        = (Format rnd (c\<lparr>reverse := True\<rparr>) (scast (- N)), ?s')"
      using assms N by (simp add: Read_def Let_def Read16_inverted)
    moreover have sc: "(scast (- N) :: int32_t) = - scast N"
      using ne by (rule scast_minus16)
    ultimately have a: "Read rnd D (c\<lparr>reverse := True\<rparr>) s
        = (Format rnd (c\<lparr>reverse := True\<rparr>) (- scast N), ?s')"
      by simp
    have "sint (- scast N :: int32_t) = sint (scast (- N) :: int32_t)"
      by (simp only: sc)
    also have "\<dots> = sint (- N)" by (rule sint_scast16)
    also have "\<dots> = - sint N" using ne by (rule sint_minus16)
    finally have b: "sint (- scast N :: int32_t) = - sint N" .
    from a b show "Read rnd D (c\<lparr>reverse := True\<rparr>) s
        = (Format rnd (c\<lparr>reverse := True\<rparr>) (- scast N), ?s')
      \<and> sint (- scast N :: int32_t) = - sint N"
      by (rule conjI)
  qed
  show ?thesis
  proof (rule exI [where x = N], rule exI [where x = ?s'], intro conjI)
    show "Read16 D (c\<lparr>reverse := False\<rparr>) s = (Inr N, ?s')" by (fact fwd)
    show "Read rnd D (c\<lparr>reverse := False\<rparr>) s
      = (Format rnd (c\<lparr>reverse := False\<rparr>) (scast N), ?s')" by (fact r1)
    show "sint N \<noteq> - (2 ^ 15) \<longrightarrow>
      Read rnd D (c\<lparr>reverse := True\<rparr>) s
        = (Format rnd (c\<lparr>reverse := True\<rparr>) (- scast N), ?s')
      \<and> sint (- scast N :: int32_t) = - sint N" by (fact r2)
  qed
qed

text \<open>
  Claim C6, as stated, fails for the most negative count. A 16-bit channel that receives
  the bytes \<^verbatim>\<open>80 00\<close> assembles \<open>N = -32768\<close>. Not inverted, \<^verbatim>\<open>Read\<close> returns
  \<open>Format N\<close>. Inverted, it does not return \<open>Format (-N)\<close>, which would be
  \<open>Format 32768 = 32768\<close> here: \<^verbatim>\<open>-retval\<close> is computed in 16 bits, where 32768
  does not exist, so the negation overflows. (Where the overflow wraps, the value passed
  on is \<open>-32768\<close> again.)
\<close>

theorem Read16_inverted_most_negative:
  "fst (Read scale scripted
          \<lparr>ss = 53, mode = BITS_16, multiplier = 1, range' = 0, reverse = False\<rparr>
          (idle [0, 0x80, 0x00]))
     = Format scale \<lparr>ss = 53, mode = BITS_16, multiplier = 1, range' = 0, reverse = False\<rparr>
         (- 32768)
   \<and> Format scale \<lparr>ss = 53, mode = BITS_16, multiplier = 1, range' = 0, reverse = True\<rparr>
         32768 = Inr 32768
   \<and> fst (Read scale scripted
          \<lparr>ss = 53, mode = BITS_16, multiplier = 1, range' = 0, reverse = True\<rparr>
          (idle [0, 0x80, 0x00]))
     = Inl SignedOverflow"
  by (simp add: Read_def idle_def Read16_scripted neg16_def Format_eval)

text \<open>
  Claim C6, amended. Take two channels that differ in \<^verbatim>\<open>reverse\<close> only, on the same
  bus in the same state, and let \<open>N\<close> be the raw count the readers assemble. The
  channel that is not inverted returns \<open>Format N\<close> from \<^verbatim>\<open>Read\<close>. If \<open>N\<close> is not
  the most negative value of the counter width (\<open>-2^31\<close> for 32 bits, \<open>-2^15\<close> for
  16 bits), the inverted channel returns \<open>Format (-N)\<close>: the negation comes after the
  assembly of the bytes and before \<^verbatim>\<open>Format\<close> scales and wraps. Both reads leave the
  bus in the same state, and \<open>Format\<close> is the same function for both channels.
\<close>

theorem Read_direction_inversion:
  "(mode c = BITS_32 \<longrightarrow>
      (\<exists>N s'. Read32 D (c\<lparr>reverse := False\<rparr>) s = (Inr N, s')
         \<and> Read rnd D (c\<lparr>reverse := False\<rparr>) s = (Format rnd (c\<lparr>reverse := False\<rparr>) N, s')
         \<and> (sint N \<noteq> - (2 ^ 31) \<longrightarrow>
               Read rnd D (c\<lparr>reverse := True\<rparr>) s
                 = (Format rnd (c\<lparr>reverse := True\<rparr>) (- N), s')
               \<and> sint (- N) = - sint N)))
   \<and> (mode c = BITS_16 \<longrightarrow>
      (\<exists>N s'. Read16 D (c\<lparr>reverse := False\<rparr>) s = (Inr N, s')
         \<and> Read rnd D (c\<lparr>reverse := False\<rparr>) s
             = (Format rnd (c\<lparr>reverse := False\<rparr>) (scast N), s')
         \<and> (sint N \<noteq> - (2 ^ 15) \<longrightarrow>
               Read rnd D (c\<lparr>reverse := True\<rparr>) s
                 = (Format rnd (c\<lparr>reverse := True\<rparr>) (- scast N), s')
               \<and> sint (- scast N :: int32_t) = - sint N)))
   \<and> Format rnd (c\<lparr>reverse := True\<rparr>) = Format rnd (c\<lparr>reverse := False\<rparr>)"
  by (intro conjI impI Read_inversion_32 Read_inversion_16 Format_same_function)

theorem Read_direction_inversion_witness:
  "fst (Read scale scripted
          \<lparr>ss = 53, mode = BITS_16, multiplier = 1, range' = 0, reverse = False\<rparr>
          (idle [0, 0x01, 0x2C])) = Inr 300
   \<and> fst (Read scale scripted
          \<lparr>ss = 53, mode = BITS_16, multiplier = 1, range' = 0, reverse = True\<rparr>
          (idle [0, 0x01, 0x2C])) = Inr (- 300)"
proof -
  let ?c = "\<lparr>ss = 53, mode = BITS_16, multiplier = 1, range' = 0, reverse = False\<rparr>"
  let ?s = "idle [0, 0x01, 0x2C] :: uint8_t list bus"
  have m: "mode ?c = BITS_16" by simp
  note t = Read_direction_inversion [of ?c scripted ?s scale]
  have "\<exists>N s'. Read16 scripted (?c\<lparr>reverse := False\<rparr>) ?s = (Inr N, s')
         \<and> Read scale scripted (?c\<lparr>reverse := False\<rparr>) ?s
             = (Format scale (?c\<lparr>reverse := False\<rparr>) (scast N), s')
         \<and> (sint N \<noteq> - (2 ^ 15) \<longrightarrow>
               Read scale scripted (?c\<lparr>reverse := True\<rparr>) ?s
                 = (Format scale (?c\<lparr>reverse := True\<rparr>) (- scast N), s')
               \<and> sint (- scast N :: int32_t) = - sint N)"
    by (rule mp [OF conjunct1 [OF conjunct2 [OF t]] m])
  then obtain N s' where
    rd: "Read16 scripted (?c\<lparr>reverse := False\<rparr>) ?s = (Inr N, s')" and
    fwd: "Read scale scripted (?c\<lparr>reverse := False\<rparr>) ?s
             = (Format scale (?c\<lparr>reverse := False\<rparr>) (scast N), s')" and
    inv: "sint N \<noteq> - (2 ^ 15) \<longrightarrow>
               Read scale scripted (?c\<lparr>reverse := True\<rparr>) ?s
                 = (Format scale (?c\<lparr>reverse := True\<rparr>) (- scast N), s')
               \<and> sint (- scast N :: int32_t) = - sint N"
    by (elim exE conjE)
  from rd have N: "N = 300"
    by (simp add: idle_def Read16_scripted)
  from fwd have a: "fst (Read scale scripted ?c ?s) = Inr 300"
    by (simp add: N Format_eval)
  from inv have "fst (Read scale scripted (?c\<lparr>reverse := True\<rparr>) ?s) = Inr (- 300)"
    by (simp add: N Format_eval)
  with a show ?thesis by simp
qed

section \<open>Zeroing the counter\<close>

text \<open>
  Claim C7. Construct a 32-bit channel with scale factor 1, range 0 and the direction
  not inverted, on a bus whose device is the chip wired to the channel's select pin, in
  any state. After \<^verbatim>\<open>Initialize\<close> and \<^verbatim>\<open>Zero\<close>, the next \<^verbatim>\<open>Read\<close> returns 0. The
  chip's counter changes by the driver's commands only (no drift).
\<close>

theorem Zero_then_Read_is_zero:
  "(let D = LS7366R_chip p;
        r = LS7366R_new D p BITS_32 1 0 False s0;
        c = fst r;
        s = Initialize D c (snd r);
        s = Zero D c s
    in fst (Read scale D c s)) = Inr 0"
  by (simp add: Let_def LS7366R_new_def Initialize_def Zero_def Read_def Read32_def bus_eval
      LS7366R_chip_def chip_on_pin_def chip_on_byte_def count_bytes_def Format_eval)

section \<open>The chip-select line\<close>

lemma Initialize_scoped:
  "well_scoped (ss c) False Released (drop (length (log s)) (log (Initialize D c s)))
   \<and> take (length (log s)) (log (Initialize D c s)) = log s
   \<and> pins (Initialize D c s) (ss c) = HIGH"
  by (simp add: Initialize_def bus_eval Let_def)

lemma Zero_scoped:
  "well_scoped (ss c) False Released (drop (length (log s)) (log (Zero D c s)))
   \<and> take (length (log s)) (log (Zero D c s)) = log s
   \<and> pins (Zero D c s) (ss c) = HIGH"
  by (simp add: Zero_def bus_eval Let_def)

lemma Read32_scoped:
  "well_scoped (ss c) False Released (drop (length (log s)) (log (snd (Read32 D c s))))
   \<and> take (length (log s)) (log (snd (Read32 D c s))) = log s
   \<and> pins (snd (Read32 D c s)) (ss c) = HIGH"
  by (simp add: Read32_def bus_eval Let_def)

lemma Read16_scoped:
  "well_scoped (ss c) False Released (drop (length (log s)) (log (snd (Read16 D c s))))
   \<and> take (length (log s)) (log (snd (Read16 D c s))) = log s
   \<and> pins (snd (Read16 D c s)) (ss c) = HIGH"
  by (simp add: Read16_def bus_eval Let_def)

lemma Read_bus:
  "snd (Read rnd D c s) =
     (case mode c of BITS_32 \<Rightarrow> snd (Read32 D c s) | BITS_16 \<Rightarrow> snd (Read16 D c s))"
  by (cases "mode c") (simp_all add: Read_def Let_def)

lemma Read_scoped:
  "well_scoped (ss c) False Released (drop (length (log s)) (log (snd (Read rnd D c s))))
   \<and> take (length (log s)) (log (snd (Read rnd D c s))) = log s
   \<and> pins (snd (Read rnd D c s)) (ss c) = HIGH"
  using Read32_scoped [of c s D] Read16_scoped [of c s D]
  by (cases "mode c") (simp_all only: Read_bus CounterMode.case)

lemma well_scoped_rejects_held_line:
  "\<not> well_scoped 53 False Released
     [BeginTransaction spiSettings, DigitalWrite 53 LOW, Transfer 0 0, EndTransaction]"
  by simp

text \<open>
  Claim C9. Whatever the device, the channel and the state of the bus, the events that
  \<^verbatim>\<open>Initialize\<close>, \<^verbatim>\<open>Read\<close> and \<^verbatim>\<open>Zero\<close> add to the log keep the chip-select
  discipline: the line is pulled low only inside the operation's own SPI transaction,
  every pull is followed by transfers and then by a release before the transaction ends,
  and on return the transaction is closed and the line is high. Each operation only adds
  to the log.
\<close>

theorem chip_select_discipline:
  "well_scoped (ss c) False Released (drop (length (log s)) (log (Initialize D c s)))
   \<and> take (length (log s)) (log (Initialize D c s)) = log s
   \<and> pins (Initialize D c s) (ss c) = HIGH
   \<and> well_scoped (ss c) False Released (drop (length (log s)) (log (snd (Read rnd D c s))))
   \<and> take (length (log s)) (log (snd (Read rnd D c s))) = log s
   \<and> pins (snd (Read rnd D c s)) (ss c) = HIGH
   \<and> well_scoped (ss c) False Released (drop (length (log s)) (log (Zero D c s)))
   \<and> take (length (log s)) (log (Zero D c s)) = log s
   \<and> pins (Zero D c s) (ss c) = HIGH"
  using Initialize_scoped [of c s D] Read_scoped [of c s rnd D] Zero_scoped [of c s D]
  by (simp only: simp_thms)

end
